theory Spec2Isabelle
  imports Main "HOL-Library.Product_Lexorder" "HOL-Library.Multiset"
begin

section \<open>Python strings\<close>

text \<open>
  A Python \<open>str\<close> is modelled as a \<open>string\<close>: each \<open>char\<close> stands for one code
  point in the range 0..255 (the ASCII and Latin-1 blocks). The three character classes
  the program relies on are written out for that range: \<open>str.isspace\<close> (used by
  \<open>str.strip\<close> and \<open>str.split\<close>), the class \<open>\w\<close> of the \<open>re\<close> module for \<open>str\<close>
  patterns, and \<open>str.lower\<close>.
\<close>

definition py_isspace :: "char \<Rightarrow> bool" where
  "py_isspace c =
     (let n = (of_char c :: nat)
      in (9 \<le> n \<and> n \<le> 13) \<or> (28 \<le> n \<and> n \<le> 32) \<or> n = 133 \<or> n = 160)"

definition is_word :: "char \<Rightarrow> bool" where
  "is_word c =
     (let n = (of_char c :: nat)
      in (48 \<le> n \<and> n \<le> 57) \<or> (65 \<le> n \<and> n \<le> 90) \<or> n = 95 \<or> (97 \<le> n \<and> n \<le> 122)
         \<or> n = 170 \<or> n = 178 \<or> n = 179 \<or> n = 181 \<or> n = 185 \<or> n = 186
         \<or> (188 \<le> n \<and> n \<le> 190) \<or> (192 \<le> n \<and> n \<le> 214) \<or> (216 \<le> n \<and> n \<le> 246)
         \<or> (248 \<le> n \<and> n \<le> 255))"

definition lower_char :: "char \<Rightarrow> char" where
  "lower_char c =
     (let n = (of_char c :: nat)
      in if (65 \<le> n \<and> n \<le> 90) \<or> (192 \<le> n \<and> n \<le> 214) \<or> (216 \<le> n \<and> n \<le> 222)
         then char_of (n + 32) else c)"

definition py_lower :: "string \<Rightarrow> string" where
  "py_lower s = map lower_char s"

definition py_strip :: "string \<Rightarrow> string" where
  "py_strip s = rev (dropWhile py_isspace (rev (dropWhile py_isspace s)))"

text \<open>Truthiness of a value that is either \<open>None\<close> or a \<open>str\<close>.\<close>

definition truthy :: "string option \<Rightarrow> bool" where
  "truthy v = (case v of None \<Rightarrow> False | Some s \<Rightarrow> s \<noteq> [])"

section \<open>The text sanitizer \<open>clean_html\<close>\<close>

text \<open>
  \<open>re.sub('<.*?>', '', s)\<close>: the scan goes left to right. At a \<open><\<close> the lazy \<open>.*?\<close>
  stops at the first \<open>>\<close>; since \<open>.\<close> does not match a line feed, there is no match
  at this \<open><\<close> when a line feed comes before that \<open>>\<close>. A match is deleted and the scan
  goes on behind it; otherwise the character is kept.
\<close>

fun tag_end :: "string \<Rightarrow> string option" where
  "tag_end [] = None"
| "tag_end (c # cs) =
     (if c = CHR ''>'' then Some cs
      else if c = CHR 0x0A then None
      else tag_end cs)"

function re_sub_tags :: "string \<Rightarrow> string" where
  "re_sub_tags [] = []"
| "re_sub_tags (c # cs) =
     (if c = CHR ''<'' then
        (case tag_end cs of
           Some r \<Rightarrow> re_sub_tags r
         | None \<Rightarrow> c # re_sub_tags cs)
      else c # re_sub_tags cs)"
  by pat_completeness auto
termination
proof -
  have shorter: "length r < length cs" if "tag_end cs = Some r" for cs r
    using that by (induction cs) (auto split: if_splits)
  show ?thesis
    by (relation "measure length") (auto dest: shorter)
qed

text \<open>
  \<open>html.unescape\<close> returns a string without \<open>&\<close> as it is; otherwise it substitutes
  the character references, which is the library's table-driven \<open>_charref.sub\<close>, a
  parameter here.
\<close>

definition html_unescape :: "(string \<Rightarrow> string) \<Rightarrow> string \<Rightarrow> string" where
  "html_unescape charref_sub s = (if CHR ''&'' \<notin> set s then s else charref_sub s)"

definition clean_html :: "(string \<Rightarrow> string) \<Rightarrow> string option \<Rightarrow> string" where
  "clean_html charref_sub raw_html =
     (if \<not> truthy raw_html then []
      else py_strip (html_unescape charref_sub (re_sub_tags (the raw_html))))"

text \<open>A string has a tag when \<open><.*?>\<close> matches somewhere in it.\<close>

fun has_tag :: "string \<Rightarrow> bool" where
  "has_tag [] = False"
| "has_tag (c # cs) = ((c = CHR ''<'' \<and> tag_end cs \<noteq> None) \<or> has_tag cs)"

section \<open>The date normalizer \<open>parse_date\<close>\<close>

text \<open>
  A naive \<open>datetime\<close> is the tuple of its fields (year, month, day, hour, minute,
  second, microsecond); Python compares two of them field by field in this order, which
  is the lexicographic order of the tuples. \<open>datetime.min\<close> is 0001-01-01 00:00:00.
\<close>

type_synonym datetime = "int \<times> int \<times> int \<times> int \<times> int \<times> int \<times> int"

definition datetime_min :: datetime where
  "datetime_min = (1, 1, 1, 0, 0, 0, 0)"

definition is_leap :: "int \<Rightarrow> bool" where
  "is_leap y = (y mod 4 = 0 \<and> (y mod 100 \<noteq> 0 \<or> y mod 400 = 0))"

definition days_in_month :: "int \<Rightarrow> int \<Rightarrow> int" where
  "days_in_month y m =
     (if m = 2 then (if is_leap y then 29 else 28)
      else if m = 4 \<or> m = 6 \<or> m = 9 \<or> m = 11 then 30 else 31)"

text \<open>
  The constructor \<open>datetime(year, month, day, hour, minute, second)\<close>; \<open>None\<close> is
  the \<open>ValueError\<close> it raises for a field out of range.
\<close>

definition py_datetime :: "int \<Rightarrow> int \<Rightarrow> int \<Rightarrow> int \<Rightarrow> int \<Rightarrow> int \<Rightarrow> datetime option" where
  "py_datetime yy mm dd thh tmm tss =
     (if 1 \<le> yy \<and> yy \<le> 9999 \<and> 1 \<le> mm \<and> mm \<le> 12
         \<and> 1 \<le> dd \<and> dd \<le> days_in_month yy mm
         \<and> 0 \<le> thh \<and> thh \<le> 23 \<and> 0 \<le> tmm \<and> tmm \<le> 59 \<and> 0 \<le> tss \<and> tss \<le> 59
      then Some (yy, mm, dd, thh, tmm, tss, 0) else None)"

subsection \<open>String operations used by the library's date parser\<close>

text \<open>\<open>s.split()\<close>: the maximal runs of characters that are not whitespace.\<close>

fun split_ws :: "string \<Rightarrow> string \<Rightarrow> string list" where
  "split_ws cur [] = (if cur = [] then [] else [cur])"
| "split_ws cur (c # cs) =
     (if py_isspace c then (if cur = [] then split_ws [] cs else cur # split_ws [] cs)
      else split_ws (cur @ [c]) cs)"

definition py_split :: "string \<Rightarrow> string list" where
  "py_split s = split_ws [] s"

text \<open>\<open>s.split(sep)\<close> for a separator of one character.\<close>

fun split_sep :: "char \<Rightarrow> string \<Rightarrow> string \<Rightarrow> string list" where
  "split_sep sep cur [] = [cur]"
| "split_sep sep cur (c # cs) =
     (if c = sep then cur # split_sep sep [] cs else split_sep sep (cur @ [c]) cs)"

definition py_split_sep :: "char \<Rightarrow> string \<Rightarrow> string list" where
  "py_split_sep sep s = split_sep sep [] s"

text \<open>\<open>s.find(c)\<close> and \<open>s.rfind(c)\<close>: the first and the last index of \<open>c\<close>, or -1.\<close>

definition py_find :: "char \<Rightarrow> string \<Rightarrow> int" where
  "py_find c s = (if c \<in> set s then int (length (takeWhile (\<lambda>x. x \<noteq> c) s)) else - 1)"

definition py_rfind :: "char \<Rightarrow> string \<Rightarrow> int" where
  "py_rfind c s =
     (if c \<in> set s then int (length s) - 1 - int (length (takeWhile (\<lambda>x. x \<noteq> c) (rev s)))
      else - 1)"

text \<open>
  \<open>str.upper\<close> on the code points 0..255. The upper-case forms of U+00B5, U+00DF and
  U+00FF lie outside this range (or are two letters); these three are left as they are,
  which changes neither a lookup in the time zone table nor \<open>int\<close>.
\<close>

definition upper_char :: "char \<Rightarrow> char" where
  "upper_char c =
     (let n = (of_char c :: nat)
      in if (97 \<le> n \<and> n \<le> 122) \<or> (224 \<le> n \<and> n \<le> 246) \<or> (248 \<le> n \<and> n \<le> 254)
         then char_of (n - 32) else c)"

definition py_upper :: "string \<Rightarrow> string" where
  "py_upper s = map upper_char s"

definition py_isdigit :: "char \<Rightarrow> bool" where
  "py_isdigit c =
     (let n = (of_char c :: nat) in (48 \<le> n \<and> n \<le> 57) \<or> n = 178 \<or> n = 179 \<or> n = 185)"

text \<open>
  \<open>int(s)\<close> for a string without whitespace: an optional sign, then decimal digits
  with single underscores allowed between them. \<open>None\<close> is the \<open>ValueError\<close>.
\<close>

definition digit_of :: "char \<Rightarrow> int option" where
  "digit_of c =
     (let n = (of_char c :: int) in if 48 \<le> n \<and> n \<le> 57 then Some (n - 48) else None)"

fun int_digits :: "int \<Rightarrow> string \<Rightarrow> int option" where
  "int_digits acc [] = Some acc"
| "int_digits acc [c] =
     (case digit_of c of Some v \<Rightarrow> Some (10 * acc + v) | None \<Rightarrow> None)"
| "int_digits acc (c # d # cs) =
     (if c = CHR ''_'' then
        (case digit_of d of Some v \<Rightarrow> int_digits (10 * acc + v) cs | None \<Rightarrow> None)
      else
        (case digit_of c of Some v \<Rightarrow> int_digits (10 * acc + v) (d # cs) | None \<Rightarrow> None))"

definition py_int_unsigned :: "string \<Rightarrow> int option" where
  "py_int_unsigned s =
     (case s of
        [] \<Rightarrow> None
      | c # cs \<Rightarrow> (case digit_of c of Some v \<Rightarrow> int_digits v cs | None \<Rightarrow> None))"

definition py_int :: "string \<Rightarrow> int option" where
  "py_int s =
     (case s of
        [] \<Rightarrow> None
      | c # cs \<Rightarrow>
          if c = CHR ''-'' then map_option uminus (py_int_unsigned cs)
          else if c = CHR ''+'' then py_int_unsigned cs
          else py_int_unsigned s)"

subsection \<open>The library function \<open>email.utils.parsedate_to_datetime\<close>\<close>

definition monthnames :: "string list" where
  "monthnames =
     [''jan'', ''feb'', ''mar'', ''apr'', ''may'', ''jun'', ''jul'',
      ''aug'', ''sep'', ''oct'', ''nov'', ''dec'',
      ''january'', ''february'', ''march'', ''april'', ''may'', ''june'', ''july'',
      ''august'', ''september'', ''october'', ''november'', ''december'']"

definition daynames :: "string list" where
  "daynames = [''mon'', ''tue'', ''wed'', ''thu'', ''fri'', ''sat'', ''sun'']"

definition timezones :: "(string \<times> int) list" where
  "timezones =
     [(''UT'', 0), (''UTC'', 0), (''GMT'', 0), (''Z'', 0),
      (''AST'', - 400), (''ADT'', - 300),
      (''EST'', - 500), (''EDT'', - 400),
      (''CST'', - 600), (''CDT'', - 500),
      (''MST'', - 700), (''MDT'', - 600),
      (''PST'', - 800), (''PDT'', - 700)]"

text \<open>
  \<open>_parsedate_tz\<close> is followed step by step. The first steps rearrange the list of
  tokens: a leading day name is dropped, an RFC 850 date \<open>dd-mm-yy\<close> is split, and a
  time zone glued to the time is cut off.
\<close>

definition drop_dayname :: "string list \<Rightarrow> string list" where
  "drop_dayname data =
     (case data of
        [] \<Rightarrow> []
      | d0 # ds \<Rightarrow>
          if (d0 \<noteq> [] \<and> last d0 = CHR '','') \<or> py_lower d0 \<in> set daynames then ds
          else (let i = py_rfind CHR '','' d0
                in if i \<ge> 0 then drop (nat (i + 1)) d0 # ds else data))"

definition split_rfc850 :: "string list \<Rightarrow> string list" where
  "split_rfc850 data =
     (if length data = 3 then
        (let stuff = py_split_sep CHR ''-'' (hd data)
         in if length stuff = 3 then stuff @ tl data else data)
      else data)"

definition split_zone :: "string list \<Rightarrow> string list" where
  "split_zone data =
     (if length data = 4 then
        (let s = data ! 3;
             i = (if py_find CHR ''+'' s = - 1 then py_find CHR ''-'' s else py_find CHR ''+'' s)
         in if i > 0 then take 3 data @ [take (nat i) s, drop (nat i) s]
            else data @ [[]])
      else data)"

text \<open>The time of day: \<open>hh:mm\<close>, \<open>hh:mm:ss\<close>, or the same with dots.\<close>

definition split_time :: "string \<Rightarrow> (string \<times> string \<times> string) option" where
  "split_time tm =
     (case py_split_sep CHR '':'' tm of
        [thh, tmm] \<Rightarrow> Some (thh, tmm, ''0'')
      | [thh, tmm, tss] \<Rightarrow> Some (thh, tmm, tss)
      | [t] \<Rightarrow>
          if CHR ''.'' \<in> set t then
            (case py_split_sep CHR ''.'' t of
               [thh, tmm] \<Rightarrow> Some (thh, tmm, ''0'')
             | [thh, tmm, tss] \<Rightarrow> Some (thh, tmm, tss)
             | _ \<Rightarrow> None)
          else None
      | _ \<Rightarrow> None)"

text \<open>Two-digit years: below 100, a year above 68 is in the 1900s, any other in the 2000s.\<close>

definition fix_year :: "int \<Rightarrow> int" where
  "fix_year yy = (if yy < 100 then (if yy > 68 then yy + 1900 else yy + 2000) else yy)"

text \<open>The zone offset in seconds; \<open>None\<close> when the zone is unknown or \<open>-0000\<close>.\<close>

definition zone_offset :: "string \<Rightarrow> int option" where
  "zone_offset tz0 =
     (let tz = py_upper tz0;
          tzoffset =
            (case map_of timezones tz of
               Some v \<Rightarrow> Some v
             | None \<Rightarrow>
                 (case py_int tz of
                    Some v \<Rightarrow> if v = 0 \<and> tz \<noteq> [] \<and> hd tz = CHR ''-'' then None else Some v
                  | None \<Rightarrow> None))
      in case tzoffset of
           None \<Rightarrow> None
         | Some v \<Rightarrow>
             if v = 0 then Some 0
             else if v < 0 then Some (- (((- v) div 100) * 3600 + ((- v) mod 100) * 60))
             else Some ((v div 100) * 3600 + (v mod 100) * 60))"

text \<open>
  The fields from the five tokens. \<open>None\<close> stands for the result \<open>None\<close> of the
  library function and for every exception it raises.
\<close>

definition date_fields ::
  "string list \<Rightarrow> (int \<times> int \<times> int \<times> int \<times> int \<times> int \<times> int option) option" where
  "date_fields data =
     (case data of
        [dd0, mm0, yy0, tm0, tz0] \<Rightarrow>
          if dd0 = [] \<or> mm0 = [] \<or> yy0 = [] then None
          else
            (let swap = (py_lower mm0 \<notin> set monthnames);
                 dd1 = (if swap then py_lower mm0 else dd0);
                 mm1 = (if swap then py_lower dd0 else py_lower mm0)
             in if mm1 \<notin> set monthnames then None
                else
                  (let idx = int (length (takeWhile (\<lambda>x. x \<noteq> mm1) monthnames)) + 1;
                       mm = (if idx > 12 then idx - 12 else idx);
                       dd2 = (if last dd1 = CHR '','' then butlast dd1 else dd1);
                       yy1 = (if py_find CHR '':'' yy0 > 0 then tm0 else yy0);
                       tm1 = (if py_find CHR '':'' yy0 > 0 then yy0 else tm0)
                   in if yy1 = [] \<or> tm1 = [] then None
                      else
                        (let yy2 = (if last yy1 = CHR '','' then butlast yy1 else yy1)
                         in if yy2 = [] then None
                            else
                              (let yy3 = (if \<not> py_isdigit (hd yy2) then tz0 else yy2);
                                   tz1 = (if \<not> py_isdigit (hd yy2) then yy2 else tz0);
                                   tm2 = (if last tm1 = CHR '','' then butlast tm1 else tm1)
                               in case split_time tm2 of
                                    None \<Rightarrow> None
                                  | Some (thh, tmm, tss) \<Rightarrow>
                                      (case (py_int yy3, py_int dd2, py_int thh, py_int tmm, py_int tss) of
                                         (Some yy, Some dd, Some h, Some m, Some s) \<Rightarrow>
                                           Some (fix_year yy, mm, dd, h, m, s, zone_offset tz1)
                                       | _ \<Rightarrow> None)))))
      | _ \<Rightarrow> None)"

definition parsedate_tz ::
  "string \<Rightarrow> (int \<times> int \<times> int \<times> int \<times> int \<times> int \<times> int option) option" where
  "parsedate_tz data0 =
     (if data0 = [] then None
      else if py_split data0 = [] then None
      else
        (let data = split_zone (split_rfc850 (drop_dayname (py_split data0)))
         in if length data < 5 then None else date_fields (take 5 data)))"

text \<open>
  \<open>parsedate_to_datetime\<close> builds the \<open>datetime\<close>, aware when there is a zone offset;
  \<open>timezone\<close> refuses an offset that is not strictly within 24 hours. The caller drops
  the zone with \<open>replace(tzinfo=None)\<close>, which keeps the fields, so the model returns
  the fields alone.
\<close>

definition parsedate_to_datetime :: "string \<Rightarrow> datetime option" where
  "parsedate_to_datetime data =
     (case parsedate_tz data of
        None \<Rightarrow> None
      | Some (yy, mm, dd, thh, tmm, tss, tz) \<Rightarrow>
          (case tz of
             None \<Rightarrow> py_datetime yy mm dd thh tmm tss
           | Some off \<Rightarrow>
               if - 86400 < off \<and> off < 86400 then py_datetime yy mm dd thh tmm tss else None))"

subsection \<open>\<open>parse_date\<close>\<close>

definition parse_date :: "string option \<Rightarrow> datetime" where
  "parse_date date_str =
     (if \<not> truthy date_str then datetime_min
      else (case parsedate_to_datetime (the date_str) of
              Some d \<Rightarrow> d
            | None \<Rightarrow> datetime_min))"

section \<open>Configuration\<close>

definition RSS_FEEDS :: "string list" where
  "RSS_FEEDS =
     [''https://news.ycombinator.com/rss'',
      ''https://feeds.arstechnica.com/arstechnica/index'',
      ''https://www.techradar.com/feeds/news'',
      ''https://feeds.bloomberg.com/markets/news.rss'',
      ''https://feeds.theverge.com/theverge/index.xml'',
      ''https://dev.to/feed'',
      ''https://rss.nytimes.com/services/xml/rss/nyt/Technology.xml'']"

definition KEYWORDS :: "string list" where
  "KEYWORDS =
     [''ai'', ''artificial intelligence'', ''machine learning'', ''deep learning'', ''neural'',
      ''algorithm'', ''computer science'', ''programming'', ''software'', ''developer'',
      ''coding'', ''python'', ''rust'', ''golang'', ''linux'', ''kernel'', ''cybersecurity'',
      ''hacker'', ''data science'', ''llm'', ''gpt'', ''transformer'', ''compiler'',
      ''distributed system'', ''cloud computing'', ''aws'', ''azure'', ''google cloud'']"

definition MAX_ITEMS :: int where
  "MAX_ITEMS = 4"

section \<open>The keyword filter\<close>

text \<open>
  The pattern is \<open>\b\<close>, the escaped keyword, \<open>\b\<close>: it matches at index \<open>i\<close> when the
  keyword stands there literally with a word boundary before and behind it. \<open>\b\<close> holds
  at a position when exactly one of the characters before and after it is a word
  character (a missing character counts as none). \<open>re.search\<close> tries every index.
\<close>

definition at_boundary :: "string \<Rightarrow> nat \<Rightarrow> bool" where
  "at_boundary text p =
     (let thatp = (if 0 < p \<and> p \<le> length text then is_word (text ! (p - 1)) else False);
          thisp = (if p < length text then is_word (text ! p) else False)
      in thisp \<noteq> thatp)"

definition match_at :: "string \<Rightarrow> string \<Rightarrow> nat \<Rightarrow> bool" where
  "match_at k text i =
     (if at_boundary text i then
        (if take (length k) (drop i text) = k then at_boundary text (i + length k) else False)
      else False)"

definition re_search_word :: "string \<Rightarrow> string \<Rightarrow> bool" where
  "re_search_word k text = list_ex (match_at k text) [0..<Suc (length text)]"

text \<open>The loop over \<open>KEYWORDS\<close> that sets \<open>is_match\<close> and breaks at the first hit.\<close>

fun keyword_loop :: "string list \<Rightarrow> string \<Rightarrow> bool" where
  "keyword_loop [] combined_text = False"
| "keyword_loop (k # ks) combined_text =
     (if re_search_word k combined_text then True else keyword_loop ks combined_text)"

definition combined_text :: "string \<Rightarrow> string option \<Rightarrow> string" where
  "combined_text title0 desc0 =
     (let title_lower = py_lower title0;
          desc_lower = (if truthy desc0 then py_lower (the desc0) else [])
      in title_lower @ '' '' @ desc_lower)"

definition is_match :: "string \<Rightarrow> string option \<Rightarrow> bool" where
  "is_match title0 desc0 = keyword_loop KEYWORDS (combined_text title0 desc0)"

section \<open>The aggregator \<open>get_news\<close>\<close>

datatype error = ParseError | LookupError | AttributeError

text \<open>An element of the parsed tree: its tag, its \<open>text\<close> (or \<open>None\<close>) and its children.\<close>

datatype element =
  Element (elem_tag: string) (elem_text: "string option") (elem_children: "element list")

definition find_elem :: "element \<Rightarrow> string \<Rightarrow> element option" where
  "find_elem e t = List.find (\<lambda>c. elem_tag c = t) (elem_children e)"

definition findall :: "element \<Rightarrow> string \<Rightarrow> element list" where
  "findall e t = filter (\<lambda>c. elem_tag c = t) (elem_children e)"

record news_item =
  title :: string
  link :: string
  desc :: string
  date :: datetime
  source :: string

type_synonym bytes = string

text \<open>
  What the program gets from outside: the response of each URL (\<open>None\<close> when
  \<open>urlopen\<close> or \<open>read\<close> raises), the XML parser \<open>ET.fromstring\<close> with the
  exception it raises, the substitution of character references inside
  \<open>html.unescape\<close>, and the permutation \<open>random.shuffle\<close> draws.
\<close>

record env =
  urlopen_read :: "string \<Rightarrow> bytes option"
  ET_fromstring :: "bytes \<Rightarrow> error + element"
  charref_sub :: "string \<Rightarrow> string"
  random_shuffle :: "news_item list \<Rightarrow> news_item list"

definition fetch_feed :: "env \<Rightarrow> string \<Rightarrow> bytes option" where
  "fetch_feed env url = (case urlopen_read env url of Some data \<Rightarrow> Some data | None \<Rightarrow> None)"

text \<open>\<open>item.find(t).text if item.find(t) is not None else ""\<close>\<close>

definition get_text :: "element \<Rightarrow> string \<Rightarrow> string option" where
  "get_text item t = (case find_elem item t of Some e \<Rightarrow> elem_text e | None \<Rightarrow> Some [])"

text \<open>
  The body of the loop over the items of a channel, returning the new \<open>all_items\<close>.
  \<open>link.strip()\<close> raises \<open>AttributeError\<close> when the text of the link element is
  \<open>None\<close>; nothing catches it.
\<close>

definition process_item :: "env \<Rightarrow> string \<Rightarrow> element \<Rightarrow> news_item list \<Rightarrow> error + news_item list" where
  "process_item env url item all_items =
     (let title0 = get_text item ''title'';
          link0 = get_text item ''link'';
          desc0 = get_text item ''description'';
          pubDate = get_text item ''pubDate''
      in if \<not> truthy title0 then Inr all_items
         else if is_match (the title0) desc0 then
           (case link0 of
              None \<Rightarrow> Inl AttributeError
            | Some l \<Rightarrow>
                Inr (all_items @
                  [\<lparr>title = py_strip (the title0),
                    link = py_strip l,
                    desc = (if truthy desc0
                            then take 200 (clean_html (charref_sub env) desc0) @ ''...''
                            else ''No description.''),
                    date = parse_date pubDate,
                    source = url\<rparr>]))
         else Inr all_items)"

fun items_loop :: "env \<Rightarrow> string \<Rightarrow> element list \<Rightarrow> news_item list \<Rightarrow> error + news_item list" where
  "items_loop env url [] all_items = Inr all_items"
| "items_loop env url (item # items) all_items =
     (case process_item env url item all_items of
        Inl e \<Rightarrow> Inl e
      | Inr all_items' \<Rightarrow> items_loop env url items all_items')"

text \<open>
  The body of the loop over \<open>RSS_FEEDS\<close>. Only \<open>ET.ParseError\<close> is caught; any other
  exception leaves \<open>get_news\<close>.
\<close>

definition process_feed :: "env \<Rightarrow> string \<Rightarrow> news_item list \<Rightarrow> error + news_item list" where
  "process_feed env url all_items =
     (case fetch_feed env url of
        None \<Rightarrow> Inr all_items
      | Some data \<Rightarrow>
          if data = [] then Inr all_items
          else
            (case ET_fromstring env data of
               Inl e \<Rightarrow> (if e = ParseError then Inr all_items else Inl e)
             | Inr root \<Rightarrow>
                 (case find_elem root ''channel'' of
                    None \<Rightarrow> Inr all_items
                  | Some channel \<Rightarrow> items_loop env url (findall channel ''item'') all_items)))"

fun feeds_loop :: "env \<Rightarrow> string list \<Rightarrow> news_item list \<Rightarrow> error + news_item list" where
  "feeds_loop env [] all_items = Inr all_items"
| "feeds_loop env (url # urls) all_items =
     (case process_feed env url all_items of
        Inl e \<Rightarrow> Inl e
      | Inr all_items' \<Rightarrow> feeds_loop env urls all_items')"

text \<open>
  \<open>all_items.sort(key=lambda x: x['date'], reverse=True)\<close>: a stable sort by the key;
  with \<open>reverse=True\<close> the list is reversed, sorted and reversed again, so that items
  with equal keys keep their order.
\<close>

definition sort_by_date_reverse :: "news_item list \<Rightarrow> news_item list" where
  "sort_by_date_reverse all_items = rev (sort_key date (rev all_items))"

text \<open>The slice \<open>xs[:limit]\<close>; a negative \<open>limit\<close> counts from the end.\<close>

definition slice_to :: "'a list \<Rightarrow> int \<Rightarrow> 'a list" where
  "slice_to xs limit =
     (if 0 \<le> limit then take (nat limit) xs else take (length xs - nat (- limit)) xs)"

definition rank :: "env \<Rightarrow> bool \<Rightarrow> news_item list \<Rightarrow> news_item list" where
  "rank env shuffle all_items =
     (if shuffle then random_shuffle env all_items else sort_by_date_reverse all_items)"

definition get_news :: "env \<Rightarrow> bool \<Rightarrow> int \<Rightarrow> error + news_item list" where
  "get_news env shuffle limit =
     (case feeds_loop env RSS_FEEDS [] of
        Inl e \<Rightarrow> Inl e
      | Inr all_items \<Rightarrow> Inr (slice_to (rank env shuffle all_items) limit))"

text \<open>
  The call in \<open>main\<close>: \<open>-r\<close> sets \<open>shuffle\<close>, and \<open>-l\<close> takes any integer, with
  \<open>MAX_ITEMS\<close> as the default (which is also the default of the parameter \<open>limit\<close>).
\<close>

definition main_items :: "env \<Rightarrow> bool \<Rightarrow> int option \<Rightarrow> error + news_item list" where
  "main_items env random_flag limit_arg =
     get_news env random_flag (case limit_arg of None \<Rightarrow> MAX_ITEMS | Some l \<Rightarrow> l)"

text \<open>
  A source contributes nothing when its fetch gives \<open>None\<close> or no bytes, or when the
  parser raises \<open>ParseError\<close> on its payload.
\<close>

definition source_fails :: "env \<Rightarrow> string \<Rightarrow> bool" where
  "source_fails env url =
     (case fetch_feed env url of
        None \<Rightarrow> True
      | Some data \<Rightarrow> data = [] \<or> ET_fromstring env data = Inl ParseError)"

section \<open>Example feeds\<close>

definition rss_item :: "string \<Rightarrow> string \<Rightarrow> string \<Rightarrow> string \<Rightarrow> element" where
  "rss_item t l d p =
     Element ''item'' None
       [Element ''title'' (Some t) [], Element ''link'' (Some l) [],
        Element ''description'' (Some d) [], Element ''pubDate'' (Some p) []]"

text \<open>
  Three items that pass the filter and one that does not; the third has no description
  and a date that does not parse.
\<close>

definition example_feed :: element where
  "example_feed =
     Element ''rss'' None
       [Element ''channel'' None
          [Element ''title'' (Some ''Feed'') [],
           rss_item ''Rust 2'' '' http://a/1 '' ''<p>New  one</p>'' ''2 Sep 2024 10:00:00 +0000'',
           rss_item ''He said'' ''http://a/2'' ''aim'' ''2 Sep 2024 11:00:00 +0000'',
           rss_item ''New AI'' ''http://a/3'' ''fast'' ''Tue, 03 Sep 2024 08:30:00 GMT'',
           Element ''item'' None
             [Element ''title'' (Some ''Linux 6'') [], Element ''link'' (Some ''http://a/4'') [],
              Element ''pubDate'' (Some ''today'') []]]]"

text \<open>
  The first source answers with the example feed, the sixth with bytes that do not parse,
  and every other fetch fails.
\<close>

definition example_env :: env where
  "example_env =
     \<lparr>urlopen_read =
        (\<lambda>u. if u = ''https://news.ycombinator.com/rss'' then Some ''A''
             else if u = ''https://dev.to/feed'' then Some ''<rss'' else None),
      ET_fromstring = (\<lambda>b. if b = ''A'' then Inr example_feed else Inl ParseError),
      charref_sub = (\<lambda>s. s),
      random_shuffle = rev\<rparr>"

definition example_items :: "news_item list" where
  "example_items =
     [\<lparr>title = ''Rust 2'', link = ''http://a/1'', desc = ''New  one...'',
       date = (2024, 9, 2, 10, 0, 0, 0), source = ''https://news.ycombinator.com/rss''\<rparr>,
      \<lparr>title = ''New AI'', link = ''http://a/3'', desc = ''fast...'',
       date = (2024, 9, 3, 8, 30, 0, 0), source = ''https://news.ycombinator.com/rss''\<rparr>,
      \<lparr>title = ''Linux 6'', link = ''http://a/4'', desc = ''No description.'',
       date = (1, 1, 1, 0, 0, 0, 0), source = ''https://news.ycombinator.com/rss''\<rparr>]"

text \<open>A feed whose only item has a title of one space and the description \<open>ai\<close>.\<close>

definition blank_title_env :: env where
  "blank_title_env =
     \<lparr>urlopen_read =
        (\<lambda>u. if u = ''https://news.ycombinator.com/rss'' then Some ''B'' else None),
      ET_fromstring =
        (\<lambda>b. Inr (Element ''rss'' None
                 [Element ''channel'' None
                    [Element ''item'' None
                       [Element ''title'' (Some '' '') [],
                        Element ''link'' (Some ''http://b/1'') [],
                        Element ''description'' (Some ''ai'') []]]])),
      charref_sub = (\<lambda>s. s),
      random_shuffle = (\<lambda>xs. xs)\<rparr>"

section \<open>Properties of the sanitizer\<close>

lemma tag_end_iff:
  "tag_end cs \<noteq> None \<longleftrightarrow> (\<exists>mid post. cs = mid @ CHR ''>'' # post \<and> CHR 0x0A \<notin> set mid)"
proof (induction cs)
  case Nil
  then show ?case by simp
next
  case (Cons c cs)
  show ?case
  proof (cases "c = CHR ''>''")
    case True
    then have "c # cs = [] @ CHR ''>'' # cs \<and> CHR 0x0A \<notin> set ([]::string)" by simp
    then have "\<exists>mid post. c # cs = mid @ CHR ''>'' # post \<and> CHR 0x0A \<notin> set mid" by blast
    with True show ?thesis by simp
  next
    case notgt: False
    show ?thesis
    proof (cases "c = CHR 0x0A")
      case True
      have "\<not> (\<exists>mid post. c # cs = mid @ CHR ''>'' # post \<and> CHR 0x0A \<notin> set mid)"
      proof
        assume "\<exists>mid post. c # cs = mid @ CHR ''>'' # post \<and> CHR 0x0A \<notin> set mid"
        then obtain mid post where h: "c # cs = mid @ CHR ''>'' # post" "CHR 0x0A \<notin> set mid" by blast
        from h(1) notgt obtain m where "mid = c # m" by (cases mid) auto
        with h(2) True show False by simp
      qed
      with True notgt show ?thesis by simp
    next
      case False
      have "(\<exists>mid post. c # cs = mid @ CHR ''>'' # post \<and> CHR 0x0A \<notin> set mid)
            \<longleftrightarrow> (\<exists>mid post. cs = mid @ CHR ''>'' # post \<and> CHR 0x0A \<notin> set mid)"
      proof
        assume "\<exists>mid post. c # cs = mid @ CHR ''>'' # post \<and> CHR 0x0A \<notin> set mid"
        then obtain mid post where h: "c # cs = mid @ CHR ''>'' # post" "CHR 0x0A \<notin> set mid" by blast
        from h(1) notgt obtain m where m: "mid = c # m" by (cases mid) auto
        with h have "cs = m @ CHR ''>'' # post \<and> CHR 0x0A \<notin> set m" by simp
        then show "\<exists>mid post. cs = mid @ CHR ''>'' # post \<and> CHR 0x0A \<notin> set mid" by blast
      next
        assume "\<exists>mid post. cs = mid @ CHR ''>'' # post \<and> CHR 0x0A \<notin> set mid"
        then obtain mid post where h: "cs = mid @ CHR ''>'' # post" "CHR 0x0A \<notin> set mid" by blast
        with False have "c # cs = (c # mid) @ CHR ''>'' # post \<and> CHR 0x0A \<notin> set (c # mid)" by simp
        then show "\<exists>mid post. c # cs = mid @ CHR ''>'' # post \<and> CHR 0x0A \<notin> set mid" by blast
      qed
      with False notgt Cons.IH show ?thesis by simp
    qed
  qed
qed

lemma has_tag_iff:
  "has_tag s \<longleftrightarrow>
     (\<exists>pre mid post. s = pre @ CHR ''<'' # mid @ CHR ''>'' # post \<and> CHR 0x0A \<notin> set mid)"
proof (induction s)
  case Nil
  then show ?case by simp
next
  case (Cons c cs)
  let ?R = "\<lambda>s. \<exists>pre mid post. s = pre @ CHR ''<'' # mid @ CHR ''>'' # post \<and> CHR 0x0A \<notin> set mid"
  have "?R (c # cs) \<longleftrightarrow> (c = CHR ''<'' \<and> tag_end cs \<noteq> None) \<or> ?R cs"
  proof
    assume "?R (c # cs)"
    then obtain pre mid post where h: "c # cs = pre @ CHR ''<'' # mid @ CHR ''>'' # post"
      "CHR 0x0A \<notin> set mid" by blast
    show "(c = CHR ''<'' \<and> tag_end cs \<noteq> None) \<or> ?R cs"
    proof (cases pre)
      case Nil
      with h have "c = CHR ''<''" "cs = mid @ CHR ''>'' # post" by simp_all
      with h(2) show ?thesis using tag_end_iff by blast
    next
      case (Cons p ps)
      with h have "cs = ps @ CHR ''<'' # mid @ CHR ''>'' # post" by simp
      with h(2) show ?thesis by blast
    qed
  next
    assume a: "(c = CHR ''<'' \<and> tag_end cs \<noteq> None) \<or> ?R cs"
    show "?R (c # cs)"
    proof (cases "c = CHR ''<'' \<and> tag_end cs \<noteq> None")
      case True
      then obtain mid post where "cs = mid @ CHR ''>'' # post" "CHR 0x0A \<notin> set mid"
        using tag_end_iff by blast
      with True have "c # cs = [] @ CHR ''<'' # mid @ CHR ''>'' # post \<and> CHR 0x0A \<notin> set mid"
        by simp
      then show ?thesis by blast
    next
      case False
      with a obtain pre mid post where "cs = pre @ CHR ''<'' # mid @ CHR ''>'' # post"
        "CHR 0x0A \<notin> set mid" by blast
      then have "c # cs = (c # pre) @ CHR ''<'' # mid @ CHR ''>'' # post \<and> CHR 0x0A \<notin> set mid"
        by simp
      then show ?thesis by blast
    qed
  qed
  with Cons.IH show ?case by simp
qed















section \<open>Properties of the keyword filter\<close>

lemma boundary_before:
  assumes "is_word c"
  shows "at_boundary (pre @ c # rest) (length pre) \<longleftrightarrow> (pre = [] \<or> \<not> is_word (last pre))"
proof (cases "pre = []")
  case True
  with assms show ?thesis by (simp add: at_boundary_def)
next
  case False
  then have "(pre @ c # rest) ! (length pre - 1) = last pre"
    by (simp add: nth_append last_conv_nth)
  with False assms show ?thesis by (simp add: at_boundary_def)
qed

lemma boundary_after:
  assumes "is_word c"
  shows "at_boundary (front @ c # post) (Suc (length front)) \<longleftrightarrow> (post = [] \<or> \<not> is_word (hd post))"
proof (cases post)
  case Nil
  with assms show ?thesis by (simp add: at_boundary_def)
next
  case (Cons p ps)
  have "(front @ c # p # ps) ! Suc (length front) = p"
    by (simp add: nth_append)
  with Cons assms show ?thesis by (simp add: at_boundary_def nth_append)
qed

lemma match_at_decomposed:
  assumes "k \<noteq> []" and "is_word (hd k)" and "is_word (last k)"
  shows "match_at k (pre @ k @ post) (length pre) \<longleftrightarrow>
           (pre = [] \<or> \<not> is_word (last pre)) \<and> (post = [] \<or> \<not> is_word (hd post))"
proof -
  from assms(1) obtain c k' where k1: "k = c # k'" by (cases k) auto
  from assms(1) obtain k'' l where k2: "k = k'' @ [l]" by (metis rev_exhaust)
  have b1: "at_boundary (pre @ k @ post) (length pre) \<longleftrightarrow> (pre = [] \<or> \<not> is_word (last pre))"
    using boundary_before [of c pre "k' @ post"] assms(2) k1 by simp
  have "at_boundary ((pre @ k'') @ l # post) (Suc (length (pre @ k'')))
          \<longleftrightarrow> (post = [] \<or> \<not> is_word (hd post))"
    using assms(3) k2 by (intro boundary_after) simp
  then have b2: "at_boundary (pre @ k @ post) (length pre + length k)
          \<longleftrightarrow> (post = [] \<or> \<not> is_word (hd post))"
    using k2 by simp
  have "take (length k) (drop (length pre) (pre @ k @ post)) = k" by simp
  with b1 b2 show ?thesis by (simp add: match_at_def)
qed

lemma match_at_split:
  assumes "take (length k) (drop i s) = k" and "i \<le> length s"
  shows "s = take i s @ k @ drop (i + length k) s \<and> length (take i s) = i"
proof -
  have "drop i s = take (length k) (drop i s) @ drop (length k) (drop i s)"
    by (simp only: append_take_drop_id)
  then have "drop i s = k @ drop (i + length k) s"
    using assms(1) by (simp add: add.commute)
  then have "take i s @ drop i s = take i s @ k @ drop (i + length k) s" by simp
  then show ?thesis using assms(2) by simp
qed

lemma re_search_word_iff:
  assumes "k \<noteq> []" and "is_word (hd k)" and "is_word (last k)"
  shows "re_search_word k s \<longleftrightarrow>
           (\<exists>pre post. s = pre @ k @ post
              \<and> (pre = [] \<or> \<not> is_word (last pre)) \<and> (post = [] \<or> \<not> is_word (hd post)))"
proof
  assume "re_search_word k s"
  then obtain i where i0: "i \<in> set [0..<Suc (length s)]" and i2: "match_at k s i"
    unfolding re_search_word_def list_ex_iff by blast
  from i0 have i1: "i \<le> length s" by auto
  from i2 have t: "take (length k) (drop i s) = k"
    by (simp add: match_at_def split: if_splits)
  let ?pre = "take i s" and ?post = "drop (i + length k) s"
  from t i1 have sp: "s = ?pre @ k @ ?post" "length ?pre = i"
    using match_at_split by blast+
  from i2 sp have "match_at k (?pre @ k @ ?post) (length ?pre)" by simp
  then have "(?pre = [] \<or> \<not> is_word (last ?pre)) \<and> (?post = [] \<or> \<not> is_word (hd ?post))"
    using match_at_decomposed [OF assms] by blast
  with sp(1) show "\<exists>pre post. s = pre @ k @ post
              \<and> (pre = [] \<or> \<not> is_word (last pre)) \<and> (post = [] \<or> \<not> is_word (hd post))"
    by blast
next
  assume "\<exists>pre post. s = pre @ k @ post
              \<and> (pre = [] \<or> \<not> is_word (last pre)) \<and> (post = [] \<or> \<not> is_word (hd post))"
  then obtain pre post where h: "s = pre @ k @ post"
    "(pre = [] \<or> \<not> is_word (last pre)) \<and> (post = [] \<or> \<not> is_word (hd post))" by blast
  then have "match_at k s (length pre)"
    using match_at_decomposed [OF assms] by blast
  moreover have "length pre \<in> set [0..<Suc (length s)]" using h(1) by simp
  ultimately show "re_search_word k s"
    unfolding re_search_word_def list_ex_iff by blast
qed

lemma keyword_loop_iff: "keyword_loop ks s \<longleftrightarrow> (\<exists>k\<in>set ks. re_search_word k s)"
  by (induction ks) auto

lemma KEYWORDS_word_ends: "\<forall>k\<in>set KEYWORDS. k \<noteq> [] \<and> is_word (hd k) \<and> is_word (last k)"
  by (simp add: KEYWORDS_def is_word_def)

lemma combined_text_eq:
  "combined_text t d = py_lower t @ '' '' @ (case d of None \<Rightarrow> [] | Some s \<Rightarrow> py_lower s)"
  by (cases d) (simp_all add: combined_text_def truthy_def py_lower_def)

lemma is_match_iff:
  "is_match t d \<longleftrightarrow>
     (\<exists>k\<in>set KEYWORDS. \<exists>pre post. combined_text t d = pre @ k @ post
        \<and> (pre = [] \<or> \<not> is_word (last pre)) \<and> (post = [] \<or> \<not> is_word (hd post)))"
proof -
  have "re_search_word k w \<longleftrightarrow>
           (\<exists>pre post. w = pre @ k @ post
              \<and> (pre = [] \<or> \<not> is_word (last pre)) \<and> (post = [] \<or> \<not> is_word (hd post)))"
    if "k \<in> set KEYWORDS" for k w
    using that KEYWORDS_word_ends by (intro re_search_word_iff) blast+
  then show ?thesis
    unfolding is_match_def keyword_loop_iff by blast
qed

lemma keyword_examples:
  "\<not> re_search_word ''ai'' ''said''"
  "\<not> re_search_word ''ai'' ''aim''"
  "re_search_word ''ai'' (py_lower ''AI'')"
  "re_search_word ''machine learning'' (py_lower ''On Machine Learning.'')"
  "\<not> re_search_word ''machine learning'' ''machine and learning''"
  by code_simp+

lemma is_match_examples:
  "\<not> is_match ''said'' (Some ''aim'')"
  "is_match ''An AI'' None"
  by code_simp+

text \<open>
  C2. The filter lowercases title and description and joins them with one space. It
  accepts the item exactly when some keyword of the list stands in that text as a
  contiguous piece whose neighbours, where there are any, are not word characters.
  So \<open>ai\<close> is not found inside \<open>said\<close> or \<open>aim\<close> but is found in \<open>AI\<close> once
  lowercased, and \<open>machine learning\<close> is found only as one contiguous phrase.
\<close>

theorem keyword_filter_word_boundary:
  "(is_match t d \<longleftrightarrow>
      (\<exists>k\<in>set KEYWORDS. \<exists>pre post. combined_text t d = pre @ k @ post
         \<and> (pre = [] \<or> \<not> is_word (last pre)) \<and> (post = [] \<or> \<not> is_word (hd post))))
   \<and> combined_text t d = py_lower t @ '' '' @ (case d of None \<Rightarrow> [] | Some s \<Rightarrow> py_lower s)
   \<and> \<not> re_search_word ''ai'' ''said''
   \<and> \<not> re_search_word ''ai'' ''aim''
   \<and> re_search_word ''ai'' (py_lower ''AI'')
   \<and> re_search_word ''machine learning'' (py_lower ''On Machine Learning.'')
   \<and> \<not> re_search_word ''machine learning'' ''machine and learning''
   \<and> \<not> is_match ''said'' (Some ''aim'')
   \<and> is_match ''An AI'' None"
  using is_match_iff [of t d] combined_text_eq [of t d] keyword_examples is_match_examples
  by blast

theorem keyword_filter_word_boundary_witness:
  "combined_text ''Rust 2'' (Some ''New'') = ''rust 2 new''
   \<and> ''rust'' \<in> set KEYWORDS
   \<and> ''rust 2 new'' = [] @ ''rust'' @ '' 2 new''
   \<and> \<not> is_word (hd '' 2 new'')
   \<and> is_match ''Rust 2'' (Some ''New'')"
proof -
  have c: "combined_text ''Rust 2'' (Some ''New'') = ''rust 2 new''" by code_simp
  have k: "''rust'' \<in> set KEYWORDS" by (simp add: KEYWORDS_def)
  have w: "\<not> is_word (hd '' 2 new'')" by (simp add: is_word_def)
  have "combined_text ''Rust 2'' (Some ''New'') = [] @ ''rust'' @ '' 2 new''
      \<and> ([] = ([]::string) \<or> \<not> is_word (last []))
      \<and> ('' 2 new'' = [] \<or> \<not> is_word (hd '' 2 new''))"
    using c w by simp
  with k have "\<exists>k\<in>set KEYWORDS. \<exists>pre post. combined_text ''Rust 2'' (Some ''New'') = pre @ k @ post
         \<and> (pre = [] \<or> \<not> is_word (last pre)) \<and> (post = [] \<or> \<not> is_word (hd post))"
    by blast
  with keyword_filter_word_boundary [of "''Rust 2''" "Some ''New''"]
  have "is_match ''Rust 2'' (Some ''New'')" by blast
  with c k w show ?thesis by simp
qed

section \<open>Properties of the aggregator\<close>

subsection \<open>The example feed, evaluated\<close>

lemma example_first_feed:
  "process_feed example_env ''https://news.ycombinator.com/rss'' [] = Inr example_items"
  by code_simp

lemma example_others_fail:
  "\<forall>u\<in>set RSS_FEEDS. u \<noteq> ''https://news.ycombinator.com/rss'' \<longrightarrow> source_fails example_env u"
  by (simp add: RSS_FEEDS_def source_fails_def fetch_feed_def example_env_def)

lemma example_sorted:
  "sort_by_date_reverse example_items = [example_items ! 1, example_items ! 0, example_items ! 2]"
  by code_simp


subsection \<open>The title of a stored item\<close>

text \<open>
  C1. Every item of the output should have a non-empty title after trimming. The guard
  \<open>if not title\<close> tests the raw title, and the stored title is the stripped one: a
  feed item whose title is a single space and whose description holds the keyword
  \<open>ai\<close> passes the guard and the filter and reaches the output with the empty title.
\<close>

theorem blank_title_reaches_output:
  "get_news blank_title_env False MAX_ITEMS
     = Inr [\<lparr>title = [], link = ''http://b/1'', desc = ''ai...'',
             date = datetime_min, source = ''https://news.ycombinator.com/rss''\<rparr>]"
  by code_simp

subsection \<open>The description of a stored item\<close>

text \<open>
  C3. When an item is accepted, its description is the sanitized raw description cut to
  200 characters with \<open>...\<close> appended (also when nothing was cut) if the raw
  description is a non-empty string, and the placeholder \<open>No description.\<close> if it is
  empty or absent.
\<close>

theorem description_truncation:
  assumes "process_item env url item all_items = Inr items'" and "items' \<noteq> all_items"
  shows "\<exists>n. items' = all_items @ [n] \<and>
           desc n = (if truthy (get_text item ''description'')
                     then take 200 (clean_html (charref_sub env) (get_text item ''description''))
                            @ ''...''
                     else ''No description.'')"
  using assms
  by (auto simp: process_item_def Let_def split: if_splits option.splits)

lemma example_item_accepted:
  "process_item example_env ''u'' (rss_item ''AI'' ''l'' ''<b>x</b> y'' []) []
     = Inr [\<lparr>title = ''AI'', link = ''l'', desc = ''x y...'', date = datetime_min, source = ''u''\<rparr>]"
  "truthy (get_text (rss_item ''AI'' ''l'' ''<b>x</b> y'' []) ''description'')"
  "take 200 (clean_html (charref_sub example_env)
      (get_text (rss_item ''AI'' ''l'' ''<b>x</b> y'' []) ''description'')) = ''x y''"
  by code_simp+

theorem description_truncation_witness:
  "process_item example_env ''u'' (rss_item ''AI'' ''l'' ''<b>x</b> y'' []) []
     = Inr [\<lparr>title = ''AI'', link = ''l'', desc = ''x y...'', date = datetime_min, source = ''u''\<rparr>]
   \<and> [\<lparr>title = ''AI'', link = ''l'', desc = ''x y...'', date = datetime_min, source = ''u''\<rparr>] \<noteq> []
   \<and> desc \<lparr>title = ''AI'', link = ''l'', desc = ''x y...'', date = datetime_min, source = ''u''\<rparr>
       = take 200 (clean_html (charref_sub example_env)
           (get_text (rss_item ''AI'' ''l'' ''<b>x</b> y'' []) ''description'')) @ ''...''"
proof -
  let ?n = "\<lparr>title = ''AI'', link = ''l'', desc = ''x y...'', date = datetime_min, source = ''u''\<rparr>"
  let ?item = "rss_item ''AI'' ''l'' ''<b>x</b> y'' []"
  have a: "process_item example_env ''u'' ?item [] = Inr [?n]" by (rule example_item_accepted(1))
  have b: "[?n] \<noteq> []" by simp
  from description_truncation [OF a b] obtain n where
    n: "[?n] = [] @ [n]"
      "desc n = (if truthy (get_text ?item ''description'')
                 then take 200 (clean_html (charref_sub example_env) (get_text ?item ''description''))
                        @ ''...''
                 else ''No description.'')"
    by blast
  from n(1) have "n = ?n" by simp
  with n(2) example_item_accepted(2)
  have "desc ?n = take 200 (clean_html (charref_sub example_env) (get_text ?item ''description''))
                        @ ''...''"
    by simp
  with a b show ?thesis by blast
qed

subsection \<open>Feeds that do not parse\<close>



subsection \<open>Sources that fail\<close>

lemma process_item_acc:
  "process_item env url item acc =
     (case process_item env url item [] of Inl e \<Rightarrow> Inl e | Inr xs \<Rightarrow> Inr (acc @ xs))"
  by (simp add: process_item_def Let_def split: option.splits)

lemma items_loop_acc:
  "items_loop env url items acc =
     (case items_loop env url items [] of Inl e \<Rightarrow> Inl e | Inr xs \<Rightarrow> Inr (acc @ xs))"
proof (induction items arbitrary: acc)
  case Nil
  then show ?case by simp
next
  case (Cons item items)
  show ?case
  proof (cases "process_item env url item []")
    case (Inl e)
    then show ?thesis using process_item_acc [of env url item acc] by simp
  next
    case (Inr xs)
    then have a: "process_item env url item acc = Inr (acc @ xs)"
      using process_item_acc [of env url item acc] by simp
    show ?thesis
      using Inr a Cons.IH [of "acc @ xs"] Cons.IH [of xs]
      by (simp split: sum.splits)
  qed
qed

lemma process_feed_acc:
  "process_feed env url acc =
     (case process_feed env url [] of Inl e \<Rightarrow> Inl e | Inr xs \<Rightarrow> Inr (acc @ xs))"
  using items_loop_acc [of env url _ acc]
  by (simp add: process_feed_def split: option.splits sum.splits)

lemma source_fails_skipped: "source_fails env url \<Longrightarrow> process_feed env url acc = Inr acc"
  by (auto simp: source_fails_def process_feed_def split: option.splits)

lemma feeds_loop_append:
  "feeds_loop env (us @ vs) acc =
     (case feeds_loop env us acc of Inl e \<Rightarrow> Inl e | Inr acc' \<Rightarrow> feeds_loop env vs acc')"
  by (induction us arbitrary: acc) (simp_all split: sum.splits)


lemma feeds_loop_all_failed:
  "\<forall>u\<in>set urls. source_fails env u \<Longrightarrow> feeds_loop env urls acc = Inr acc"
  by (induction urls arbitrary: acc) (simp_all add: source_fails_skipped)

lemma feeds_loop_single_source:
  assumes "distinct urls" and "A \<in> set urls"
    and "\<forall>u\<in>set urls. u \<noteq> A \<longrightarrow> source_fails env u"
    and "process_feed env A [] = Inr xs"
  shows "feeds_loop env urls [] = Inr xs"
proof -
  from assms(2) obtain us vs where sp: "urls = us @ A # vs" by (meson split_list)
  with assms(1) have "A \<notin> set us" "A \<notin> set vs" by auto
  with assms(3) sp have f: "\<forall>u\<in>set us. source_fails env u" "\<forall>u\<in>set vs. source_fails env u"
    by auto
  have "feeds_loop env us [] = Inr []" using f(1) by (rule feeds_loop_all_failed)
  moreover have "feeds_loop env vs xs = Inr xs" using f(2) by (rule feeds_loop_all_failed)
  ultimately show ?thesis using sp assms(4) by (simp add: feeds_loop_append)
qed

lemma RSS_FEEDS_distinct: "distinct RSS_FEEDS"
  by (simp add: RSS_FEEDS_def)

lemma example_collected: "feeds_loop example_env RSS_FEEDS [] = Inr example_items"
proof -
  have "''https://news.ycombinator.com/rss'' \<in> set RSS_FEEDS" by (simp add: RSS_FEEDS_def)
  with RSS_FEEDS_distinct show ?thesis
    using example_others_fail example_first_feed by (rule feeds_loop_single_source)
qed



subsection \<open>Ranking by date\<close>

lemma sort_by_date_reverse_mset: "mset (sort_by_date_reverse xs) = mset xs"
  by (simp add: sort_by_date_reverse_def)

lemma sort_by_date_reverse_sorted: "sorted (rev (map date (sort_by_date_reverse xs)))"
  by (simp add: sort_by_date_reverse_def rev_map [symmetric])

lemma sort_by_date_reverse_stable:
  "filter (\<lambda>x. date x = d) (sort_by_date_reverse xs) = filter (\<lambda>x. date x = d) xs"
proof -
  have "filter (\<lambda>x. date x = d) (sort_by_date_reverse xs)
          = rev (filter (\<lambda>x. date x = d) (sort_key date (rev xs)))"
    by (simp add: sort_by_date_reverse_def rev_filter)
  also have "\<dots> = rev (filter (\<lambda>x. date x = d) (rev xs))"
    by (simp only: sort_key_stable)
  also have "\<dots> = filter (\<lambda>x. date x = d) xs"
    by (simp add: rev_filter)
  finally show ?thesis .
qed

lemma sort_by_date_reverse_newest_first:
  assumes "i < j" and "j < length (sort_by_date_reverse xs)"
  shows "date (sort_by_date_reverse xs ! j) \<le> date (sort_by_date_reverse xs ! i)"
proof -
  let ?r = "sort_by_date_reverse xs"
  have "sorted (rev (map date ?r))" by (rule sort_by_date_reverse_sorted)
  moreover have "i \<le> j" using assms(1) by simp
  moreover have "j < length (map date ?r)" using assms(2) by simp
  ultimately have "map date ?r ! j \<le> map date ?r ! i" by (rule sorted_rev_nth_mono)
  with assms show ?thesis by simp
qed

lemma process_item_shuffle_irrelevant:
  "process_item (env\<lparr>random_shuffle := f\<rparr>) url item acc = process_item env url item acc"
  by (simp add: process_item_def cong: if_cong option.case_cong)

lemma items_loop_shuffle_irrelevant:
  "items_loop (env\<lparr>random_shuffle := f\<rparr>) url items acc = items_loop env url items acc"
  by (induction items arbitrary: acc) (simp_all add: process_item_shuffle_irrelevant split: sum.splits)

lemma process_feed_shuffle_irrelevant:
  "process_feed (env\<lparr>random_shuffle := f\<rparr>) url acc = process_feed env url acc"
  by (simp add: process_feed_def fetch_feed_def items_loop_shuffle_irrelevant
      cong: if_cong option.case_cong sum.case_cong)

lemma feeds_loop_shuffle_irrelevant:
  "feeds_loop (env\<lparr>random_shuffle := f\<rparr>) urls acc = feeds_loop env urls acc"
  by (induction urls arbitrary: acc) (simp_all add: process_feed_shuffle_irrelevant split: sum.splits)

lemma env_same_inputs:
  assumes "urlopen_read env' = urlopen_read env" and "ET_fromstring env' = ET_fromstring env"
    and "charref_sub env' = charref_sub env"
  shows "(env' :: env) = env\<lparr>random_shuffle := random_shuffle env'\<rparr>"
  using assms by (cases env, cases env') simp

lemma get_news_date_mode_deterministic:
  assumes "urlopen_read env' = urlopen_read env" and "ET_fromstring env' = ET_fromstring env"
    and "charref_sub env' = charref_sub env"
  shows "get_news env' False limit = get_news env False limit"
proof -
  have "env' = env\<lparr>random_shuffle := random_shuffle env'\<rparr>" using assms by (rule env_same_inputs)
  then have "feeds_loop env' RSS_FEEDS [] = feeds_loop env RSS_FEEDS []"
    by (metis feeds_loop_shuffle_irrelevant)
  then show ?thesis by (simp add: get_news_def rank_def cong: sum.case_cong)
qed

text \<open>
  C4. In date mode the output is the slice of the collected items sorted by date: the
  sorted list is a rearrangement of the collected one, a later position never holds a
  newer date than an earlier one, and the items of any one date (the sentinel included)
  stand in their order of collection. The output depends only on what the fetches, the
  parser and the entity decoder return, not on the shuffle.
\<close>

theorem date_mode_stable_descending:
  assumes "feeds_loop env RSS_FEEDS [] = Inr all_items"
  shows "get_news env False limit = Inr (slice_to (sort_by_date_reverse all_items) limit)
    \<and> mset (sort_by_date_reverse all_items) = mset all_items
    \<and> (\<forall>i j. i < j \<and> j < length (sort_by_date_reverse all_items) \<longrightarrow>
          date (sort_by_date_reverse all_items ! j) \<le> date (sort_by_date_reverse all_items ! i))
    \<and> (\<forall>d. filter (\<lambda>x. date x = d) (sort_by_date_reverse all_items)
            = filter (\<lambda>x. date x = d) all_items)
    \<and> (\<forall>env'. urlopen_read env' = urlopen_read env \<and> ET_fromstring env' = ET_fromstring env
          \<and> charref_sub env' = charref_sub env \<longrightarrow>
          get_news env' False limit = get_news env False limit)"
proof -
  have "get_news env False limit = Inr (slice_to (sort_by_date_reverse all_items) limit)"
    using assms by (simp add: get_news_def rank_def)
  moreover have "\<forall>i j. i < j \<and> j < length (sort_by_date_reverse all_items) \<longrightarrow>
          date (sort_by_date_reverse all_items ! j) \<le> date (sort_by_date_reverse all_items ! i)"
    using sort_by_date_reverse_newest_first by blast
  moreover have "\<forall>env'. urlopen_read env' = urlopen_read env \<and> ET_fromstring env' = ET_fromstring env
          \<and> charref_sub env' = charref_sub env \<longrightarrow>
          get_news env' False limit = get_news env False limit"
    using get_news_date_mode_deterministic by blast
  ultimately show ?thesis
    using sort_by_date_reverse_mset sort_by_date_reverse_stable by blast
qed

theorem date_mode_stable_descending_witness:
  "feeds_loop example_env RSS_FEEDS [] = Inr example_items
   \<and> get_news example_env False 2 = Inr [example_items ! 1, example_items ! 0]
   \<and> get_news (example_env\<lparr>random_shuffle := (\<lambda>xs. [])\<rparr>) False 2
       = Inr [example_items ! 1, example_items ! 0]"
proof -
  let ?e = "example_env\<lparr>random_shuffle := (\<lambda>xs. [])\<rparr>"
  from date_mode_stable_descending [OF example_collected, of 2]
  have g: "get_news example_env False 2 = Inr (slice_to (sort_by_date_reverse example_items) 2)"
    and d: "\<forall>env'. urlopen_read env' = urlopen_read example_env
          \<and> ET_fromstring env' = ET_fromstring example_env
          \<and> charref_sub env' = charref_sub example_env \<longrightarrow>
          get_news env' False 2 = get_news example_env False 2"
    by blast+
  have "urlopen_read ?e = urlopen_read example_env \<and> ET_fromstring ?e = ET_fromstring example_env
          \<and> charref_sub ?e = charref_sub example_env"
    by simp
  with d have "get_news ?e False 2 = get_news example_env False 2" by blast
  with g example_collected show ?thesis
    by (simp add: example_sorted slice_to_def)
qed

subsection \<open>The limit\<close>

lemma get_news_collected:
  "feeds_loop env RSS_FEEDS [] = Inr all_items \<Longrightarrow>
   get_news env shuffle limit = Inr (slice_to (rank env shuffle all_items) limit)"
  by (simp add: get_news_def)

text \<open>
  C8. For a limit that is not negative, the output is the first \<open>min limit n\<close> items of
  the ranked list of \<open>n\<close> items: never more than \<open>limit\<close>, and the whole ranked list
  when the limit is at least \<open>n\<close>. The default limit is 4.
\<close>

theorem limit_truncation:
  assumes "0 \<le> limit" and "feeds_loop env RSS_FEEDS [] = Inr all_items"
  shows "get_news env shuffle limit
           = Inr (take (min (nat limit) (length (rank env shuffle all_items)))
                    (rank env shuffle all_items))
         \<and> (\<forall>out. get_news env shuffle limit = Inr out \<longrightarrow> int (length out) \<le> limit)
         \<and> (int (length (rank env shuffle all_items)) \<le> limit \<longrightarrow>
              get_news env shuffle limit = Inr (rank env shuffle all_items))
         \<and> MAX_ITEMS = 4
         \<and> main_items env shuffle None = get_news env shuffle 4"
proof -
  let ?r = "rank env shuffle all_items"
  have g: "get_news env shuffle limit = Inr (slice_to ?r limit)"
    using assms(2) by (rule get_news_collected)
  have s: "slice_to ?r limit = take (nat limit) ?r"
    using assms(1) by (simp add: slice_to_def)
  have a: "take (nat limit) ?r = take (min (nat limit) (length ?r)) ?r"
    by (simp add: min_def)
  have b: "int (length (take (nat limit) ?r)) \<le> limit"
    using assms(1) by simp
  have c: "int (length ?r) \<le> limit \<longrightarrow> take (nat limit) ?r = ?r"
    by simp
  have d: "main_items env shuffle None = get_news env shuffle 4"
    by (simp add: main_items_def MAX_ITEMS_def)
  from g s a b c d show ?thesis by (simp add: MAX_ITEMS_def)
qed

theorem limit_truncation_witness:
  "(0::int) \<le> 7 \<and> feeds_loop example_env RSS_FEEDS [] = Inr example_items
   \<and> int (length (rank example_env True example_items)) \<le> 7
   \<and> get_news example_env True 7 = Inr [example_items ! 2, example_items ! 1, example_items ! 0]"
proof -
  have r: "rank example_env True example_items
             = [example_items ! 2, example_items ! 1, example_items ! 0]"
    by (simp add: rank_def example_env_def example_items_def)
  have l: "int (length (rank example_env True example_items)) \<le> 7"
    by (simp add: r)
  have z: "(0::int) \<le> 7" by simp
  from limit_truncation [OF z example_collected, of True] l
  have "get_news example_env True 7 = Inr (rank example_env True example_items)" by blast
  with r l example_collected show ?thesis by simp
qed

text \<open>
  C10. The truncation is the slice \<open>all_items[:limit]\<close>: with the limit 0 the output is
  empty, and with a negative limit it is the ranked list without its last \<open>|limit|\<close>
  items. \<open>main\<close> passes on any integer given with \<open>-l\<close>.
\<close>

theorem limit_zero_and_negative:
  assumes "feeds_loop env RSS_FEEDS [] = Inr all_items"
  shows "get_news env shuffle 0 = Inr []
         \<and> (limit < 0 \<longrightarrow>
              get_news env shuffle limit
                = Inr (take (length (rank env shuffle all_items) - nat (- limit))
                         (rank env shuffle all_items))
              \<and> get_news env shuffle limit
                = Inr (rev (drop (nat (- limit)) (rev (rank env shuffle all_items)))))
         \<and> main_items env shuffle (Some limit) = get_news env shuffle limit"
proof -
  let ?r = "rank env shuffle all_items"
  have g: "get_news env shuffle l = Inr (slice_to ?r l)" for l
    using assms by (rule get_news_collected)
  have z: "slice_to ?r 0 = []" by (simp add: slice_to_def)
  have n: "slice_to ?r limit = take (length ?r - nat (- limit)) ?r" if "limit < 0"
    using that by (simp add: slice_to_def)
  have r: "take (length ?r - nat (- limit)) ?r = rev (drop (nat (- limit)) (rev ?r))"
    by (simp add: drop_rev)
  have m: "main_items env shuffle (Some limit) = get_news env shuffle limit"
    by (simp add: main_items_def)
  from g z n r m show ?thesis by simp
qed

theorem limit_zero_and_negative_witness:
  "feeds_loop example_env RSS_FEEDS [] = Inr example_items
   \<and> (- 1 :: int) < 0
   \<and> get_news example_env False 0 = Inr []
   \<and> get_news example_env False (- 1) = Inr [example_items ! 1, example_items ! 0]
   \<and> main_items example_env False (Some (- 1)) = Inr [example_items ! 1, example_items ! 0]"
proof -
  have r: "rank example_env False example_items
             = [example_items ! 1, example_items ! 0, example_items ! 2]"
    by (simp add: rank_def example_sorted)
  have n: "(- 1 :: int) < 0" by simp
  from limit_zero_and_negative [OF example_collected, of False "- 1"] n
  have "get_news example_env False 0 = Inr []"
    and "get_news example_env False (- 1)
           = Inr (take (length (rank example_env False example_items) - nat (- (- 1)))
                    (rank example_env False example_items))"
    and "main_items example_env False (Some (- 1)) = get_news example_env False (- 1)"
    by blast+
  with r n example_collected show ?thesis by simp
qed

section \<open>Properties of the date normalizer\<close>

lemma py_datetime_ge_min: "py_datetime yy mm dd thh tmm tss = Some t \<Longrightarrow> datetime_min \<le> t"
  by (auto simp: py_datetime_def datetime_min_def split: if_splits)

lemma parsedate_to_datetime_ge_min: "parsedate_to_datetime s = Some t \<Longrightarrow> datetime_min \<le> t"
  by (auto simp: parsedate_to_datetime_def split: option.splits prod.splits if_splits
      dest: py_datetime_ge_min)

lemma parsedate_to_datetime_empty: "parsedate_to_datetime [] = None"
  by (simp add: parsedate_to_datetime_def parsedate_tz_def)

lemma parse_date_ge_min: "datetime_min \<le> parse_date d"
  by (auto simp: parse_date_def split: option.splits dest: parsedate_to_datetime_ge_min)

lemma parse_date_parsed: "parsedate_to_datetime s = Some t \<Longrightarrow> parse_date (Some s) = t"
  using parsedate_to_datetime_empty by (cases "s = []") (auto simp: parse_date_def truthy_def)

lemma parse_date_examples:
  "parsedate_to_datetime ''1 Jan -1999 00:00:00 -1999'' = Some datetime_min"
  "parsedate_to_datetime ''Tue, 03 Sep 2024 08:30:00 GMT'' = Some (2024, 9, 3, 8, 30, 0, 0)"
  "parsedate_to_datetime ''today'' = None"
  by code_simp+

text \<open>
  The claim C5 asks that the sentinel sorts strictly before every timestamp of a
  successfully parsed string. The library parser accepts \<open>1 Jan -1999 00:00:00 -1999\<close>:
  the year token does not start with a digit, so the zone token is read as the year,
  \<open>-1999\<close> is below 100 and gets 2000 added, and the result is 0001-01-01 00:00:00, the
  sentinel itself.
\<close>

theorem sentinel_not_strictly_first:
  "parsedate_to_datetime ''1 Jan -1999 00:00:00 -1999'' = Some datetime_min
   \<and> parse_date (Some ''1 Jan -1999 00:00:00 -1999'') = datetime_min
   \<and> \<not> datetime_min < parse_date (Some ''1 Jan -1999 00:00:00 -1999'')"
  using parse_date_examples(1) parse_date_parsed by simp

text \<open>
  C5, amended. \<open>parse_date\<close> returns a timestamp for every input; it returns the
  sentinel \<open>datetime.min\<close> when the input is absent or empty and when the library parser
  fails. No timestamp it returns sorts before the sentinel, and the sentinel sorts
  strictly before every parsed timestamp other than 0001-01-01 00:00:00 itself.
\<close>

theorem parse_date_sentinel:
  "parse_date None = datetime_min
   \<and> parse_date (Some []) = datetime_min
   \<and> (parsedate_to_datetime s = None \<longrightarrow> parse_date (Some s) = datetime_min)
   \<and> datetime_min \<le> parse_date d
   \<and> (parsedate_to_datetime s = Some t \<and> t \<noteq> datetime_min \<longrightarrow>
        datetime_min < parse_date (Some s))"
proof -
  have a: "parse_date None = datetime_min" "parse_date (Some []) = datetime_min"
    by (simp_all add: parse_date_def truthy_def)
  have b: "parsedate_to_datetime s = None \<longrightarrow> parse_date (Some s) = datetime_min"
    by (simp add: parse_date_def)
  have c: "datetime_min < parse_date (Some s)"
    if h: "parsedate_to_datetime s = Some t" "t \<noteq> datetime_min"
  proof -
    have "parse_date (Some s) = t" using h(1) by (rule parse_date_parsed)
    moreover have "datetime_min \<le> t" using h(1) by (rule parsedate_to_datetime_ge_min)
    ultimately show ?thesis using h(2) by simp
  qed
  from a b c parse_date_ge_min show ?thesis by blast
qed

theorem parse_date_sentinel_witness:
  "parsedate_to_datetime ''today'' = None
   \<and> parse_date (Some ''today'') = datetime_min
   \<and> parsedate_to_datetime ''Tue, 03 Sep 2024 08:30:00 GMT'' = Some (2024, 9, 3, 8, 30, 0, 0)
   \<and> (2024, 9, 3, 8, 30, 0, 0) \<noteq> datetime_min
   \<and> datetime_min < parse_date (Some ''Tue, 03 Sep 2024 08:30:00 GMT'')"
proof -
  have n: "(2024, 9, 3, 8, 30, 0, 0) \<noteq> datetime_min" by (simp add: datetime_min_def)
  from parse_date_sentinel [of "''today''"] parse_date_examples(3)
  have a: "parse_date (Some ''today'') = datetime_min" by blast
  from parse_date_sentinel [of "''Tue, 03 Sep 2024 08:30:00 GMT''" undefined "(2024, 9, 3, 8, 30, 0, 0)"]
    parse_date_examples(2) n
  have b: "datetime_min < parse_date (Some ''Tue, 03 Sep 2024 08:30:00 GMT'')" by blast
  from a b n parse_date_examples(2,3) show ?thesis by blast
qed

end
